theory Spec2Isabelle
  imports Main
begin

section \<open>Python string primitives used by the redirect code\<close>

text \<open>
  Host names, subdomain labels and paths are modelled as \<^typ>\<open>string\<close>, read as ASCII text:
  one \<^typ>\<open>char\<close> per character. On ASCII text \<open>str.lower\<close> maps \<open>A..Z\<close> to \<open>a..z\<close> and
  leaves every other character alone, and \<open>str.isalnum\<close> holds for a non-empty string of
  digits and letters.
\<close>

definition lower_char :: "char \<Rightarrow> char" where
  "lower_char c =
     (if 65 \<le> (of_char c :: nat) \<and> (of_char c :: nat) \<le> 90
      then char_of ((of_char c :: nat) + 32) else c)"

definition lower :: "string \<Rightarrow> string" where
  "lower s = map lower_char s"

definition is_alnum_char :: "char \<Rightarrow> bool" where
  "is_alnum_char c =
     ((48 \<le> (of_char c :: nat) \<and> (of_char c :: nat) \<le> 57) \<or>
      (65 \<le> (of_char c :: nat) \<and> (of_char c :: nat) \<le> 90) \<or>
      (97 \<le> (of_char c :: nat) \<and> (of_char c :: nat) \<le> 122))"

text \<open>\<open>s.isalnum()\<close>: false on the empty string.\<close>

definition isalnum :: "string \<Rightarrow> bool" where
  "isalnum s = (s \<noteq> [] \<and> list_all is_alnum_char s)"

text \<open>\<open>s.split(sep)\<close> for a one-character separator; the result is never empty.\<close>

fun split_char :: "char \<Rightarrow> string \<Rightarrow> string list" where
  "split_char sep [] = [[]]"
| "split_char sep (c # cs) =
     (if c = sep then [] # split_char sep cs
      else (case split_char sep cs of
              [] \<Rightarrow> [[c]]
            | p # ps \<Rightarrow> (c # p) # ps))"

text \<open>\<open>s.endswith(suffix)\<close>.\<close>

definition endswith :: "string \<Rightarrow> string \<Rightarrow> bool" where
  "endswith s suffix =
     (length suffix \<le> length s \<and> drop (length s - length suffix) s = suffix)"

text \<open>
  \<open>s.rsplit(sep, 1)\<close> for a non-empty separator: the string is cut at the occurrence of
  \<open>sep\<close> that starts at the highest index; without an occurrence the result is \<open>[s]\<close>.
  \<open>rfind_from sep s i\<close> searches the start indices \<open>i, i - 1, ..., 0\<close>.
\<close>

fun rfind_from :: "string \<Rightarrow> string \<Rightarrow> nat \<Rightarrow> nat option" where
  "rfind_from sep s 0 = (if take (length sep) s = sep then Some 0 else None)"
| "rfind_from sep s (Suc i) =
     (if take (length sep) (drop (Suc i) s) = sep then Some (Suc i)
      else rfind_from sep s i)"

definition rfind :: "string \<Rightarrow> string \<Rightarrow> nat option" where
  "rfind sep s =
     (if length sep \<le> length s then rfind_from sep s (length s - length sep) else None)"

definition rsplit1 :: "string \<Rightarrow> string \<Rightarrow> string list" where
  "rsplit1 sep s =
     (case rfind sep s of
        None \<Rightarrow> [s]
      | Some i \<Rightarrow> [take i s, drop (i + length sep) s])"


section \<open>The redirect rule (models/SubdomainRedirect.py)\<close>

text \<open>
  The object a rule's generic foreign key resolves to. \<open>get_absolute_url\<close> is \<open>None\<close> when
  the object has no such method (\<open>hasattr\<close> is false) and \<open>Some u\<close> when calling it gives
  \<open>u\<close>. A model instance is truthy, so \<open>content_object\<close> is falsy exactly when it is \<open>None\<close>.
\<close>

record linked_object =
  get_absolute_url :: "string option"

record rule =
  content_object :: "linked_object option"
  subdomain :: string
  redirect_type :: string
  redirect_path :: string
  is_active :: bool

definition REDIRECT_TYPE_FULL :: string where
  "REDIRECT_TYPE_FULL = ''full''"

definition REDIRECT_TYPE_PATH_PRESERVE :: string where
  "REDIRECT_TYPE_PATH_PRESERVE = ''path_preserve''"

text \<open>The four \<open>ValidationError\<close>s of \<open>clean\<close>, in the order of their \<open>raise\<close> statements.\<close>

datatype validation_error =
  SubdomainCharset
| SubdomainTooShort
| FullRequiresPath
| PathPreserveHasPath

text \<open>
  \<open>clean\<close> assigns to \<open>self.subdomain\<close> before it validates, so the model returns the
  object as \<open>clean\<close> leaves it together with the error raised, if any.
\<close>

definition clean :: "rule \<Rightarrow> rule \<times> validation_error option" where
  "clean self =
     (let self1 = (if subdomain self \<noteq> []
                   then self\<lparr>subdomain := lower (hd (split_char CHR ''.'' (subdomain self)))\<rparr>
                   else self)
      in if subdomain self \<noteq> [] \<and> \<not> isalnum (subdomain self1)
              \<and> CHR ''-'' \<notin> set (subdomain self1)
         then (self1, Some SubdomainCharset)
         else if subdomain self \<noteq> [] \<and> length (subdomain self1) < 2
         then (self1, Some SubdomainTooShort)
         else if redirect_type self1 = REDIRECT_TYPE_FULL \<and> redirect_path self1 = []
         then (self1, Some FullRequiresPath)
         else if redirect_type self1 = REDIRECT_TYPE_PATH_PRESERVE \<and> redirect_path self1 \<noteq> []
         then (self1, Some PathPreserveHasPath)
         else (self1, None))"

definition get_redirect_url :: "rule \<Rightarrow> string \<Rightarrow> string" where
  "get_redirect_url self request_path =
     (if redirect_type self = REDIRECT_TYPE_FULL then redirect_path self
      else request_path)"

text \<open>
  The table is the list of its rows. \<open>objects.get\<close> raises \<open>DoesNotExist\<close> when no row
  matches and \<open>MultipleObjectsReturned\<close> when more than one does.
\<close>

datatype lookup_error = DoesNotExist | MultipleObjectsReturned

definition objects_get :: "(rule \<Rightarrow> bool) \<Rightarrow> rule list \<Rightarrow> lookup_error + rule" where
  "objects_get p rows =
     (case filter p rows of
        [] \<Rightarrow> Inl DoesNotExist
      | [r] \<Rightarrow> Inr r
      | _ # _ # _ \<Rightarrow> Inl MultipleObjectsReturned)"

text \<open>Only \<open>DoesNotExist\<close> is caught; any other exception propagates.\<close>

definition get_redirect_for_subdomain :: "rule list \<Rightarrow> string \<Rightarrow> lookup_error + rule option" where
  "get_redirect_for_subdomain rows sub =
     (case objects_get (\<lambda>r. subdomain r = lower sub \<and> is_active r = True) rows of
        Inr r \<Rightarrow> Inr (Some r)
      | Inl DoesNotExist \<Rightarrow> Inr None
      | Inl MultipleObjectsReturned \<Rightarrow> Inl MultipleObjectsReturned)"

text \<open>The \<open>unique=True\<close> constraint of the \<open>subdomain\<close> column.\<close>

definition unique_subdomains :: "rule list \<Rightarrow> bool" where
  "unique_subdomains rows = distinct (map subdomain rows)"


section \<open>The interceptor (middleware.py, SubdomainRedirectMiddleware)\<close>

text \<open>
  A request carries what \<open>__call__\<close> reads: the value of \<open>get_host()\<close>, \<open>path\<close> and
  \<open>is_secure()\<close>.
\<close>

record request =
  get_host :: string
  path :: string
  is_secure :: bool

text \<open>
  What \<open>__call__\<close> returns: the permanent redirect it builds itself, or the result of
  handing the request to \<open>get_response\<close>.
\<close>

datatype response =
  Redirect nat string
| Passthrough request

text \<open>Line 110: the host name, port stripped, lower-cased.\<close>

definition extract_hostname :: "request \<Rightarrow> string" where
  "extract_hostname req = lower (hd (split_char CHR '':'' (get_host req)))"

text \<open>Line 117: \<open>hostname.rsplit('.' + main_domain, 1)[0]\<close>.\<close>

definition extract_subdomain :: "string \<Rightarrow> string \<Rightarrow> string" where
  "extract_subdomain main_domain hostname = hd (rsplit1 (''.'' @ main_domain) hostname)"

text \<open>Lines 126 to 134: the path the redirect goes to.\<close>

definition compute_target :: "rule \<Rightarrow> string \<Rightarrow> string" where
  "compute_target redirect_obj request_path =
     (if redirect_type redirect_obj = REDIRECT_TYPE_FULL then
        (case content_object redirect_obj of
           None \<Rightarrow> redirect_path redirect_obj
         | Some obj \<Rightarrow>
             (case get_absolute_url obj of
                None \<Rightarrow> redirect_path redirect_obj
              | Some url \<Rightarrow> url))
      else request_path)"

text \<open>Lines 137 to 141: \<open>redirect(redirect_url, permanent=True)\<close> is a 301 response.\<close>

definition build_redirect :: "string \<Rightarrow> request \<Rightarrow> string \<Rightarrow> response" where
  "build_redirect main_domain req target =
     (let protocol = (if is_secure req then ''https'' else ''http'')
      in Redirect 301 (protocol @ ''://'' @ main_domain @ target))"

text \<open>
  \<open>__call__\<close>, with the \<open>MAIN_DOMAIN\<close> setting and the rule table as parameters. An
  exception of the lookup is not caught.
\<close>

definition call :: "string \<Rightarrow> rule list \<Rightarrow> request \<Rightarrow> lookup_error + response" where
  "call main_domain rows req =
     (let hostname = extract_hostname req in
      if endswith hostname (''.'' @ main_domain) then
        (let sub = extract_subdomain main_domain hostname in
         if sub \<noteq> [] \<and> sub \<notin> set ['''', ''www''] then
           (case get_redirect_for_subdomain rows sub of
              Inl e \<Rightarrow> Inl e
            | Inr None \<Rightarrow> Inr (Passthrough req)
            | Inr (Some redirect_obj) \<Rightarrow>
                Inr (build_redirect main_domain req (compute_target redirect_obj (path req))))
         else Inr (Passthrough req))
      else Inr (Passthrough req))"


section \<open>Sample rules and requests\<close>

abbreviation shop_rule :: rule where
  "shop_rule \<equiv> \<lparr>content_object = None, subdomain = ''shop'', redirect_type = ''full'',
     redirect_path = ''/store/'', is_active = True\<rparr>"

abbreviation blog_rule :: rule where
  "blog_rule \<equiv> \<lparr>content_object = None, subdomain = ''blog'', redirect_type = ''path_preserve'',
     redirect_path = [], is_active = False\<rparr>"


abbreviation page_rule :: rule where
  "page_rule \<equiv> \<lparr>content_object = Some \<lparr>get_absolute_url = Some ''/game/game-x/''\<rparr>,
     subdomain = ''gamex'', redirect_type = ''full'', redirect_path = ''/old/'',
     is_active = True\<rparr>"

abbreviation plain_object_rule :: rule where
  "plain_object_rule \<equiv> \<lparr>content_object = Some \<lparr>get_absolute_url = None\<rparr>,
     subdomain = ''docs'', redirect_type = ''full'', redirect_path = ''/docs/'',
     is_active = True\<rparr>"

abbreviation a_rule :: rule where
  "a_rule \<equiv> \<lparr>content_object = None, subdomain = ''a'', redirect_type = ''full'',
     redirect_path = ''/x/'', is_active = True\<rparr>"


abbreviation underscore_rule :: rule where
  "underscore_rule \<equiv> \<lparr>content_object = None, subdomain = ''my_shop-1'', redirect_type = ''full'',
     redirect_path = ''/store/'', is_active = True\<rparr>"

abbreviation no_subdomain_rule :: rule where
  "no_subdomain_rule \<equiv> \<lparr>content_object = None, subdomain = [], redirect_type = ''full'',
     redirect_path = ''/store/'', is_active = True\<rparr>"

abbreviation full_without_path :: rule where
  "full_without_path \<equiv> \<lparr>content_object = None, subdomain = ''shop'', redirect_type = ''full'',
     redirect_path = [], is_active = True\<rparr>"

abbreviation secure_shop_request :: "string \<Rightarrow> request" where
  "secure_shop_request p \<equiv> \<lparr>get_host = ''shop.example.com'', path = p, is_secure = True\<rparr>"


section \<open>Facts about the string primitives\<close>

lemma split_char_nonempty: "split_char c s \<noteq> []"
  by (induction s) (auto split: list.splits)

lemma hd_split_char: "hd (split_char c s) = takeWhile (\<lambda>x. x \<noteq> c) s"
proof (induction s)
  case Nil
  show ?case by simp
next
  case (Cons x xs)
  obtain p ps where "split_char c xs = p # ps"
    using split_char_nonempty [of c xs] by (cases "split_char c xs") auto
  with Cons show ?case by simp
qed

lemma hd_split_char_no_sep: "c \<notin> set s \<Longrightarrow> hd (split_char c s) = s"
  by (auto simp add: hd_split_char takeWhile_eq_all_conv)

lemma hd_split_char_append: "c \<notin> set a \<Longrightarrow> hd (split_char c (a @ c # t)) = a"
  by (auto simp add: hd_split_char takeWhile_tail)

lemma lower_char_idem: "lower_char (lower_char c) = lower_char c"
proof (cases "65 \<le> (of_char c :: nat) \<and> (of_char c :: nat) \<le> 90")
  case True
  then have "(of_char (char_of ((of_char c :: nat) + 32)) :: nat) = of_char c + 32"
    by simp
  with True show ?thesis by (simp add: lower_char_def)
next
  case False
  then show ?thesis by (auto simp add: lower_char_def)
qed

lemma lower_idem: "lower (lower s) = lower s"
  by (simp add: lower_def lower_char_idem)

lemma rfind_from_hit: "take (length sep) (drop i s) = sep \<Longrightarrow> rfind_from sep s i = Some i"
  by (cases i) simp_all

lemma rfind_suffix: "rfind sep (a @ sep) = Some (length a)"
  by (simp add: rfind_def rfind_from_hit)

lemma extract_subdomain_prefix: "extract_subdomain md (a @ ''.'' @ md) = a"
  using rfind_suffix [of "''.'' @ md" a] by (simp add: extract_subdomain_def rsplit1_def)

lemma endswith_iff: "endswith s suf \<longleftrightarrow> (\<exists>a. s = a @ suf)"
  unfolding endswith_def
proof
  assume h: "length suf \<le> length s \<and> drop (length s - length suf) s = suf"
  have "s = take (length s - length suf) s @ drop (length s - length suf) s" by simp
  with h show "\<exists>a. s = a @ suf" by metis
next
  assume "\<exists>a. s = a @ suf"
  then show "length suf \<le> length s \<and> drop (length s - length suf) s = suf" by auto
qed

lemma redirect_types_differ: "REDIRECT_TYPE_FULL \<noteq> REDIRECT_TYPE_PATH_PRESERVE"
  by (simp add: REDIRECT_TYPE_FULL_def REDIRECT_TYPE_PATH_PRESERVE_def)

lemma filter_unique_key:
  "distinct (map f xs) \<Longrightarrow> r \<in> set xs \<Longrightarrow> f r = k \<Longrightarrow> P r \<Longrightarrow>
     filter (\<lambda>x. f x = k \<and> P x) xs = [r]"
proof (induction xs)
  case Nil
  then show ?case by simp
next
  case (Cons x xs)
  show ?case
  proof (cases "x = r")
    case True
    have "f r \<notin> f ` set xs" using Cons.prems True by simp
    then have "\<forall>y \<in> set xs. f y \<noteq> k" using Cons.prems(3) by (metis image_eqI)
    then have "filter (\<lambda>x. f x = k \<and> P x) xs = []" by (simp add: filter_empty_conv)
    with True Cons.prems show ?thesis by simp
  next
    case False
    then have rin: "r \<in> set xs" using Cons.prems by simp
    then have "f x \<noteq> k" using Cons.prems by force
    moreover have "filter (\<lambda>x. f x = k \<and> P x) xs = [r]"
      using Cons.IH Cons.prems rin by simp
    ultimately show ?thesis by simp
  qed
qed

lemma lookup_hit:
  assumes "unique_subdomains rows" "r \<in> set rows" "subdomain r = lower s" "is_active r"
  shows "get_redirect_for_subdomain rows s = Inr (Some r)"
proof -
  have "filter (\<lambda>x. subdomain x = lower s \<and> is_active x) rows = [r]"
    using assms filter_unique_key [of subdomain rows r "lower s" is_active]
    by (simp add: unique_subdomains_def)
  then show ?thesis by (simp add: get_redirect_for_subdomain_def objects_get_def)
qed

lemma lookup_miss:
  assumes "\<forall>r \<in> set rows. subdomain r = lower s \<longrightarrow> \<not> is_active r"
  shows "get_redirect_for_subdomain rows s = Inr None"
proof -
  have "filter (\<lambda>x. subdomain x = lower s \<and> is_active x) rows = []"
    using assms by (auto simp add: filter_empty_conv)
  then show ?thesis by (simp add: get_redirect_for_subdomain_def objects_get_def)
qed

lemma lookup_sound:
  assumes "get_redirect_for_subdomain rows s = Inr (Some r)"
  shows "r \<in> set rows \<and> subdomain r = lower s \<and> is_active r"
proof -
  have "filter (\<lambda>x. subdomain x = lower s \<and> is_active x) rows = [r]"
    using assms
    by (auto simp add: get_redirect_for_subdomain_def objects_get_def
          split: list.splits sum.splits lookup_error.splits)
  then have "r \<in> set (filter (\<lambda>x. subdomain x = lower s \<and> is_active x) rows)" by simp
  then show ?thesis by simp
qed


section \<open>Facts about the interceptor\<close>

lemma call_unfold:
  "call md rows req =
     (if endswith (extract_hostname req) (''.'' @ md)
         \<and> extract_subdomain md (extract_hostname req) \<noteq> []
         \<and> extract_subdomain md (extract_hostname req) \<noteq> ''www''
      then (case get_redirect_for_subdomain rows (extract_subdomain md (extract_hostname req)) of
              Inl e \<Rightarrow> Inl e
            | Inr None \<Rightarrow> Inr (Passthrough req)
            | Inr (Some redirect_obj) \<Rightarrow>
                Inr (build_redirect md req (compute_target redirect_obj (path req))))
      else Inr (Passthrough req))"
  by (simp add: call_def Let_def)

lemma hostname_shop: "lower ''shop.example.com'' = ''shop.example.com''"
  by code_simp

lemma hostname_www: "lower ''www.example.com'' = ''www.example.com''"
  by code_simp

lemma hostname_bare: "lower ''example.com'' = ''example.com''"
  by code_simp

lemma lower_shop: "lower ''shop'' = ''shop''"
  by code_simp


section \<open>Facts about validation\<close>

lemma clean_subdomain: "subdomain (fst (clean r)) = lower (hd (split_char CHR ''.'' (subdomain r)))"
  by (cases "subdomain r = []") (simp_all add: clean_def Let_def lower_def)

lemma clean_accepted_subdomain:
  assumes "subdomain r \<noteq> []" "snd (clean r) = None"
  shows "2 \<le> length (subdomain (fst (clean r)))
         \<and> (isalnum (subdomain (fst (clean r))) \<or> CHR ''-'' \<in> set (subdomain (fst (clean r))))"
  using assms by (auto simp add: clean_def Let_def split: if_splits)


section \<open>The resolver\<close>

text \<open>
  C2. On a table that respects the uniqueness of \<open>subdomain\<close>, the lookup for \<open>s\<close> returns
  the active row whose subdomain is the lower-cased \<open>s\<close>; it returns \<open>None\<close>, as an ordinary
  result and not as an exception, when no row has that subdomain or the row that has it is
  inactive; whatever row it returns is an active row of the table with that subdomain.
\<close>

theorem get_redirect_for_subdomain_unique_active:
  assumes "unique_subdomains rows"
  shows "(\<forall>r \<in> set rows. subdomain r = lower s \<and> is_active r \<longrightarrow>
            get_redirect_for_subdomain rows s = Inr (Some r))
       \<and> ((\<forall>r \<in> set rows. subdomain r = lower s \<longrightarrow> \<not> is_active r) \<longrightarrow>
            get_redirect_for_subdomain rows s = Inr None)
       \<and> (\<forall>r. get_redirect_for_subdomain rows s = Inr (Some r) \<longrightarrow>
            r \<in> set rows \<and> subdomain r = lower s \<and> is_active r)
       \<and> (\<exists>res. get_redirect_for_subdomain rows s = Inr res)"
proof -
  have hit: "\<forall>r \<in> set rows. subdomain r = lower s \<and> is_active r \<longrightarrow>
            get_redirect_for_subdomain rows s = Inr (Some r)"
    using assms lookup_hit by blast
  have miss: "(\<forall>r \<in> set rows. subdomain r = lower s \<longrightarrow> \<not> is_active r) \<longrightarrow>
            get_redirect_for_subdomain rows s = Inr None"
    using lookup_miss by blast
  have sound: "\<forall>r. get_redirect_for_subdomain rows s = Inr (Some r) \<longrightarrow>
            r \<in> set rows \<and> subdomain r = lower s \<and> is_active r"
    using lookup_sound by blast
  have "\<exists>res. get_redirect_for_subdomain rows s = Inr res"
    using hit miss by blast
  with hit miss sound show ?thesis by blast
qed


theorem get_redirect_for_subdomain_unique_active_witness:
  "unique_subdomains [shop_rule, blog_rule]
   \<and> get_redirect_for_subdomain [shop_rule, blog_rule] ''Shop'' = Inr (Some shop_rule)"
proof -
  have u: "unique_subdomains [shop_rule, blog_rule]"
    by (simp add: unique_subdomains_def)
  have l: "lower ''Shop'' = ''shop''"
    by code_simp
  note hit = get_redirect_for_subdomain_unique_active [OF u, of "''Shop''", THEN conjunct1]
  from hit have "get_redirect_for_subdomain [shop_rule, blog_rule] ''Shop'' = Inr (Some shop_rule)"
    by (simp add: l)
  with u show ?thesis by simp
qed


section \<open>The target of a redirect\<close>

text \<open>
  C1. The interceptor's target: for a FULL rule with a linked object that has
  \<open>get_absolute_url\<close>, the target is what that method returns; for a FULL rule with no linked
  object, or with one that lacks the method, it is the rule's \<open>redirect_path\<close>; for a
  PATH_PRESERVE rule it is the request path, unchanged.
\<close>

theorem compute_target_cases:
  "(redirect_type r = REDIRECT_TYPE_FULL \<and> content_object r = Some obj
      \<and> get_absolute_url obj = Some url \<longrightarrow> compute_target r p = url)
   \<and> (redirect_type r = REDIRECT_TYPE_FULL
      \<and> (content_object r = None
          \<or> (\<exists>obj. content_object r = Some obj \<and> get_absolute_url obj = None))
      \<longrightarrow> compute_target r p = redirect_path r)
   \<and> (redirect_type r = REDIRECT_TYPE_PATH_PRESERVE \<longrightarrow> compute_target r p = p)"
  using redirect_types_differ by (auto simp add: compute_target_def)

theorem compute_target_cases_witness:
  "compute_target page_rule ''/lol/'' = ''/game/game-x/''
   \<and> compute_target plain_object_rule ''/lol/'' = ''/docs/''
   \<and> compute_target shop_rule ''/lol/'' = ''/store/''
   \<and> compute_target blog_rule ''/lol/'' = ''/lol/''"
proof -
  have "compute_target page_rule ''/lol/'' = ''/game/game-x/''"
    using compute_target_cases [of page_rule "\<lparr>get_absolute_url = Some ''/game/game-x/''\<rparr>"
        "''/game/game-x/''" "''/lol/''"]
    by (simp add: REDIRECT_TYPE_FULL_def)
  moreover have "compute_target plain_object_rule ''/lol/'' = ''/docs/''"
    using compute_target_cases [of plain_object_rule "\<lparr>get_absolute_url = None\<rparr>" "[]" "''/lol/''"]
    by (simp add: REDIRECT_TYPE_FULL_def)
  moreover have "compute_target shop_rule ''/lol/'' = ''/store/''"
    using compute_target_cases [of shop_rule "\<lparr>get_absolute_url = None\<rparr>" "[]" "''/lol/''"]
    by (simp add: REDIRECT_TYPE_FULL_def)
  moreover have "compute_target blog_rule ''/lol/'' = ''/lol/''"
    using compute_target_cases [of blog_rule "\<lparr>get_absolute_url = None\<rparr>" "[]" "''/lol/''"]
    by (simp add: REDIRECT_TYPE_PATH_PRESERVE_def)
  ultimately show ?thesis by blast
qed

text \<open>
  C9. The model's own \<open>get_redirect_url\<close> returns the \<open>redirect_path\<close> of a FULL rule
  whatever is linked to it: the result does not change when the linked object is replaced.
  The interceptor differs: with a linked object that has \<open>get_absolute_url\<close> it returns what
  that method gives.
\<close>

theorem get_redirect_url_ignores_content_object:
  "redirect_type r = REDIRECT_TYPE_FULL \<Longrightarrow>
     get_redirect_url r p = redirect_path r
     \<and> get_redirect_url (r\<lparr>content_object := co\<rparr>) p = get_redirect_url r p
     \<and> (content_object r = Some obj \<and> get_absolute_url obj = Some url \<longrightarrow>
          compute_target r p = url)"
  by (simp add: get_redirect_url_def compute_target_def)

theorem get_redirect_url_ignores_content_object_witness:
  "redirect_type page_rule = REDIRECT_TYPE_FULL
   \<and> get_redirect_url page_rule ''/lol/'' = ''/old/''
   \<and> compute_target page_rule ''/lol/'' = ''/game/game-x/''"
proof -
  have t: "redirect_type page_rule = REDIRECT_TYPE_FULL"
    by (simp add: REDIRECT_TYPE_FULL_def)
  from get_redirect_url_ignores_content_object [OF t, of "''/lol/''" None
      "\<lparr>get_absolute_url = Some ''/game/game-x/''\<rparr>" "''/game/game-x/''"]
  show ?thesis using t by simp
qed


section \<open>Pass-through\<close>

text \<open>
  C4. When the host name (port stripped, lower-cased) does not end with \<open>.\<close> followed by the
  main domain, or what is left of it after removing that suffix is empty or is \<open>www\<close>, the
  interceptor hands the request on unchanged. With the main domain \<open>example.com\<close> the hosts
  \<open>www.example.com\<close> and \<open>example.com\<close> are handed on whatever the rule table holds.
\<close>

theorem call_passthrough:
  "(\<not> endswith (extract_hostname req) (''.'' @ md)
      \<or> extract_subdomain md (extract_hostname req) = []
      \<or> extract_subdomain md (extract_hostname req) = ''www''
     \<longrightarrow> call md rows req = Inr (Passthrough req))
   \<and> call ''example.com'' rows \<lparr>get_host = ''www.example.com'', path = p, is_secure = b\<rparr>
       = Inr (Passthrough \<lparr>get_host = ''www.example.com'', path = p, is_secure = b\<rparr>)
   \<and> call ''example.com'' rows \<lparr>get_host = ''example.com'', path = p, is_secure = b\<rparr>
       = Inr (Passthrough \<lparr>get_host = ''example.com'', path = p, is_secure = b\<rparr>)"
proof -
  have general: "\<not> endswith (extract_hostname req) (''.'' @ md)
      \<or> extract_subdomain md (extract_hostname req) = []
      \<or> extract_subdomain md (extract_hostname req) = ''www''
     \<longrightarrow> call md rows req = Inr (Passthrough req)"
    by (auto simp add: call_unfold)
  have "extract_subdomain ''example.com'' ''www.example.com'' = ''www''"
    using extract_subdomain_prefix [of "''example.com''" "''www''"] by simp
  then have www: "call ''example.com'' rows \<lparr>get_host = ''www.example.com'', path = p, is_secure = b\<rparr>
       = Inr (Passthrough \<lparr>get_host = ''www.example.com'', path = p, is_secure = b\<rparr>)"
    by (simp add: call_unfold extract_hostname_def hostname_www)
  have "\<not> endswith ''example.com'' ''.example.com''"
    by (simp add: endswith_def)
  then have bare: "call ''example.com'' rows \<lparr>get_host = ''example.com'', path = p, is_secure = b\<rparr>
       = Inr (Passthrough \<lparr>get_host = ''example.com'', path = p, is_secure = b\<rparr>)"
    by (simp add: call_unfold extract_hostname_def hostname_bare)
  from general www bare show ?thesis by blast
qed

theorem call_passthrough_witness:
  "extract_subdomain ''example.com''
      (extract_hostname \<lparr>get_host = ''WWW.Example.com:8000'', path = ''/p'', is_secure = True\<rparr>) = ''www''
   \<and> call ''example.com'' [shop_rule, blog_rule]
        \<lparr>get_host = ''WWW.Example.com:8000'', path = ''/p'', is_secure = True\<rparr>
      = Inr (Passthrough \<lparr>get_host = ''WWW.Example.com:8000'', path = ''/p'', is_secure = True\<rparr>)"
proof -
  have w: "extract_subdomain ''example.com''
      (extract_hostname \<lparr>get_host = ''WWW.Example.com:8000'', path = ''/p'', is_secure = True\<rparr>) = ''www''"
    by code_simp
  note pass = call_passthrough [of "\<lparr>get_host = ''WWW.Example.com:8000'', path = ''/p'', is_secure = True\<rparr>"
      "''example.com''" "[shop_rule, blog_rule]" "''/p''" True, THEN conjunct1]
  from pass w show ?thesis by blast
qed

section \<open>The subdomain candidate\<close>

text \<open>
  C8, as the code has it. When the host name ends with \<open>.\<close> followed by the main domain, the
  candidate handed to the resolver is the host name with that final suffix removed, dots
  included: for \<open>a.b.\<close>main domain it is \<open>a.b\<close>. It is the leftmost label when what precedes
  the suffix has no dot.
\<close>

theorem extract_subdomain_strips_suffix:
  "(endswith hostname (''.'' @ md) \<longrightarrow> extract_subdomain md hostname @ ''.'' @ md = hostname)
   \<and> extract_subdomain md (a @ ''.'' @ b @ ''.'' @ md) = a @ ''.'' @ b
   \<and> (CHR ''.'' \<notin> set a \<longrightarrow>
        extract_subdomain md (a @ ''.'' @ md) = hd (split_char CHR ''.'' (a @ ''.'' @ md)))
   \<and> (endswith (extract_hostname req) (''.'' @ md)
        \<and> extract_subdomain md (extract_hostname req) \<noteq> []
        \<and> extract_subdomain md (extract_hostname req) \<noteq> ''www''
      \<longrightarrow> call md rows req =
           (case get_redirect_for_subdomain rows (extract_subdomain md (extract_hostname req)) of
              Inl e \<Rightarrow> Inl e
            | Inr None \<Rightarrow> Inr (Passthrough req)
            | Inr (Some redirect_obj) \<Rightarrow>
                Inr (build_redirect md req (compute_target redirect_obj (path req)))))"
proof -
  have one: "endswith hostname (''.'' @ md) \<longrightarrow> extract_subdomain md hostname @ ''.'' @ md = hostname"
  proof
    assume "endswith hostname (''.'' @ md)"
    then obtain pre where "hostname = pre @ ''.'' @ md"
      using endswith_iff [of hostname "''.'' @ md"] by blast
    then show "extract_subdomain md hostname @ ''.'' @ md = hostname"
      using extract_subdomain_prefix [of md pre] by simp
  qed
  have two: "extract_subdomain md (a @ ''.'' @ b @ ''.'' @ md) = a @ ''.'' @ b"
    using extract_subdomain_prefix [of md "a @ ''.'' @ b"] by simp
  have three: "CHR ''.'' \<notin> set a \<longrightarrow>
        extract_subdomain md (a @ ''.'' @ md) = hd (split_char CHR ''.'' (a @ ''.'' @ md))"
    using extract_subdomain_prefix [of md a] hd_split_char_append [of "CHR ''.''" a md]
    by simp
  have four: "endswith (extract_hostname req) (''.'' @ md)
        \<and> extract_subdomain md (extract_hostname req) \<noteq> []
        \<and> extract_subdomain md (extract_hostname req) \<noteq> ''www''
      \<longrightarrow> call md rows req =
           (case get_redirect_for_subdomain rows (extract_subdomain md (extract_hostname req)) of
              Inl e \<Rightarrow> Inl e
            | Inr None \<Rightarrow> Inr (Passthrough req)
            | Inr (Some redirect_obj) \<Rightarrow>
                Inr (build_redirect md req (compute_target redirect_obj (path req))))"
    by (simp add: call_unfold)
  from one two three four show ?thesis by blast
qed

theorem extract_subdomain_strips_suffix_witness:
  "endswith ''shop.example.com'' ''.example.com''
   \<and> extract_subdomain ''example.com'' ''shop.example.com'' = ''shop''
   \<and> hd (split_char CHR ''.'' ''shop.example.com'') = ''shop''"
proof -
  have e: "endswith ''shop.example.com'' (''.'' @ ''example.com'')"
    by (simp add: endswith_def)
  have n: "CHR ''.'' \<notin> set ''shop''"
    by simp
  note facts = extract_subdomain_strips_suffix [of "''shop.example.com''" "''example.com''"
      "''shop''" "[]" "\<lparr>get_host = ''shop.example.com'', path = ''/'', is_secure = True\<rparr>" "[]"]
  from facts e have "extract_subdomain ''example.com'' ''shop.example.com'' @ ''.example.com''
      = ''shop.example.com''"
    by simp
  then have s: "extract_subdomain ''example.com'' ''shop.example.com'' = ''shop''"
    by simp
  from facts n have "extract_subdomain ''example.com'' ''shop.example.com''
      = hd (split_char CHR ''.'' ''shop.example.com'')"
    by simp
  with s e show ?thesis by simp
qed

text \<open>
  The host \<open>a.b.example.com\<close>: its leftmost label is \<open>a\<close>, the candidate is \<open>a.b\<close>, and an
  active rule for \<open>a\<close> is not applied.
\<close>

theorem leftmost_label_counterexample:
  "endswith ''a.b.example.com'' ''.example.com''
   \<and> hd (split_char CHR ''.'' ''a.b.example.com'') = ''a''
   \<and> extract_subdomain ''example.com'' ''a.b.example.com'' = ''a.b''
   \<and> extract_subdomain ''example.com'' ''a.b.example.com'' \<noteq> ''a''
   \<and> call ''example.com'' [a_rule] \<lparr>get_host = ''a.b.example.com'', path = ''/'', is_secure = False\<rparr>
       = Inr (Passthrough \<lparr>get_host = ''a.b.example.com'', path = ''/'', is_secure = False\<rparr>)"
  by code_simp


section \<open>The redirect response\<close>

text \<open>
  C3. Every redirect the interceptor returns is a 301 whose location is the scheme of the
  request (\<open>https\<close> when it is secure, \<open>http\<close> otherwise), \<open>://\<close>, the main domain and the
  target computed for the rule the resolver returned. A secure request for
  \<open>shop.example.com\<close>, with main domain \<open>example.com\<close> and an active FULL rule for \<open>shop\<close> to
  \<open>/store/\<close> without a linked object in a table with unique subdomains, is redirected to
  \<open>https://example.com/store/\<close>.
\<close>

theorem call_redirect_permanent:
  "(call md rows req = Inr (Redirect status location) \<longrightarrow>
      status = 301
      \<and> (\<exists>r. get_redirect_for_subdomain rows (extract_subdomain md (extract_hostname req))
                = Inr (Some r)
             \<and> location = (if is_secure req then ''https'' else ''http'') @ ''://'' @ md
                 @ compute_target r (path req)))
   \<and> (unique_subdomains rows \<and> shop_rule \<in> set rows \<longrightarrow>
        call ''example.com'' rows (secure_shop_request p)
          = Inr (Redirect 301 ''https://example.com/store/''))"
proof -
  have general: "call md rows req = Inr (Redirect status location) \<longrightarrow>
      status = 301
      \<and> (\<exists>r. get_redirect_for_subdomain rows (extract_subdomain md (extract_hostname req))
                = Inr (Some r)
             \<and> location = (if is_secure req then ''https'' else ''http'') @ ''://'' @ md
                 @ compute_target r (path req))"
    by (auto simp add: call_unfold build_redirect_def
          split: if_splits sum.splits option.splits)
  have shop: "unique_subdomains rows \<and> shop_rule \<in> set rows \<longrightarrow>
        call ''example.com'' rows (secure_shop_request p)
          = Inr (Redirect 301 ''https://example.com/store/'')"
  proof
    assume h: "unique_subdomains rows \<and> shop_rule \<in> set rows"
    have host: "extract_hostname (secure_shop_request p) = ''shop.example.com''"
      by (simp add: extract_hostname_def hostname_shop)
    have sub: "extract_subdomain ''example.com'' ''shop.example.com'' = ''shop''"
      using extract_subdomain_prefix [of "''example.com''" "''shop''"] by simp
    have ends: "endswith ''shop.example.com'' (''.'' @ ''example.com'')"
      by (simp add: endswith_def)
    have look: "get_redirect_for_subdomain rows ''shop'' = Inr (Some shop_rule)"
      using h lookup_hit [of rows shop_rule "''shop''"] by (simp add: lower_shop)
    have target: "compute_target shop_rule p = ''/store/''"
      by (simp add: compute_target_def REDIRECT_TYPE_FULL_def)
    show "call ''example.com'' rows (secure_shop_request p)
          = Inr (Redirect 301 ''https://example.com/store/'')"
      using ends by (simp add: call_unfold host sub look target build_redirect_def)
  qed
  from general shop show ?thesis by blast
qed

theorem call_redirect_permanent_witness:
  "unique_subdomains [blog_rule, shop_rule] \<and> shop_rule \<in> set [blog_rule, shop_rule]
   \<and> call ''example.com'' [blog_rule, shop_rule] (secure_shop_request ''/anything/'')
       = Inr (Redirect 301 ''https://example.com/store/'')"
proof -
  have u: "unique_subdomains [blog_rule, shop_rule] \<and> shop_rule \<in> set [blog_rule, shop_rule]"
    by (simp add: unique_subdomains_def)
  note shop = call_redirect_permanent [of "''example.com''" "[blog_rule, shop_rule]"
      "secure_shop_request ''/anything/''" 301 "''https://example.com/store/''" "''/anything/''",
      THEN conjunct2]
  from shop u show ?thesis by blast
qed


section \<open>Normalisation of subdomains\<close>

text \<open>
  C5, as the code has it. After \<open>clean\<close> the subdomain of a rule is the first dot-separated
  label of what was entered, lower-cased. The resolver only lower-cases what it is given: it
  answers the same for \<open>s\<close> and for \<open>s\<close> lower-cased, and the same for \<open>s\<close> and for the
  normalised form of \<open>s\<close> when \<open>s\<close> has no dot. The domain suffix is removed before the lookup by
  the interceptor, which turns the host \<open>Shop.example.com\<close> into the candidate \<open>shop\<close>.
\<close>

theorem subdomain_normalisation:
  "subdomain (fst (clean r)) = lower (hd (split_char CHR ''.'' (subdomain r)))
   \<and> get_redirect_for_subdomain rows (lower s) = get_redirect_for_subdomain rows s
   \<and> (CHR ''.'' \<notin> set s \<longrightarrow>
        get_redirect_for_subdomain rows (lower (hd (split_char CHR ''.'' s)))
          = get_redirect_for_subdomain rows s)
   \<and> extract_subdomain ''example.com''
        (extract_hostname \<lparr>get_host = ''Shop.example.com'', path = p, is_secure = b\<rparr>) = ''shop''"
proof -
  have low: "get_redirect_for_subdomain rows (lower s) = get_redirect_for_subdomain rows s"
    by (simp add: get_redirect_for_subdomain_def lower_idem)
  have nodot: "CHR ''.'' \<notin> set s \<longrightarrow>
        get_redirect_for_subdomain rows (lower (hd (split_char CHR ''.'' s)))
          = get_redirect_for_subdomain rows s"
    using low by (simp add: hd_split_char_no_sep)
  have "lower ''Shop.example.com'' = ''shop.example.com''"
    by code_simp
  then have host: "extract_hostname \<lparr>get_host = ''Shop.example.com'', path = p, is_secure = b\<rparr>
      = ''shop.example.com''"
    by (simp add: extract_hostname_def)
  have "extract_subdomain ''example.com'' ''shop.example.com'' = ''shop''"
    using extract_subdomain_prefix [of "''example.com''" "''shop''"] by simp
  with host have cand: "extract_subdomain ''example.com''
        (extract_hostname \<lparr>get_host = ''Shop.example.com'', path = p, is_secure = b\<rparr>) = ''shop''"
    by simp
  from clean_subdomain [of r] low nodot cand show ?thesis by blast
qed

theorem subdomain_normalisation_witness:
  "CHR ''.'' \<notin> set ''Shop''
   \<and> get_redirect_for_subdomain [shop_rule] ''Shop'' = Inr (Some shop_rule)
   \<and> get_redirect_for_subdomain [shop_rule] (lower (hd (split_char CHR ''.'' ''Shop'')))
       = Inr (Some shop_rule)"
proof -
  have n: "CHR ''.'' \<notin> set ''Shop''"
    by simp
  have v: "get_redirect_for_subdomain [shop_rule] ''Shop'' = Inr (Some shop_rule)"
    by code_simp
  note facts = subdomain_normalisation [of shop_rule "[shop_rule]" "''Shop''" "''/''" True]
  from facts n have "get_redirect_for_subdomain [shop_rule] (lower (hd (split_char CHR ''.'' ''Shop'')))
       = get_redirect_for_subdomain [shop_rule] ''Shop''"
    by blast
  with n v show ?thesis by simp
qed

text \<open>
  The entry \<open>Shop.example.com\<close> is stored as \<open>shop\<close>, and the resolver finds the rule under
  \<open>shop\<close> but not under \<open>Shop.example.com\<close>.
\<close>

theorem resolve_suffix_counterexample:
  "subdomain (fst (clean (shop_rule\<lparr>subdomain := ''Shop.example.com''\<rparr>))) = ''shop''
   \<and> lower (hd (split_char CHR ''.'' ''Shop.example.com'')) = ''shop''
   \<and> get_redirect_for_subdomain [shop_rule] ''shop'' = Inr (Some shop_rule)
   \<and> get_redirect_for_subdomain [shop_rule] ''Shop.example.com'' = Inr None"
  by code_simp

section \<open>Validation of the redirect configuration\<close>

text \<open>
  C6, as the code has it. \<open>clean\<close> raises a validation error for a FULL rule with an empty
  \<open>redirect_path\<close> and for a PATH_PRESERVE rule with a non-empty one, and a consistent
  combination never raises either of the two redirect-configuration errors. For a rule whose
  subdomain is empty, or after normalisation has at least two characters and is alphanumeric
  or contains a hyphen, \<open>clean\<close> raises exactly when the combination is inconsistent, and the
  error is then the one of that combination. For any other subdomain \<open>clean\<close> raises a
  subdomain error whatever the combination is.
\<close>

theorem clean_redirect_configuration:
  "(redirect_type r = REDIRECT_TYPE_FULL \<and> redirect_path r = [] \<longrightarrow> snd (clean r) \<noteq> None)
   \<and> (redirect_type r = REDIRECT_TYPE_PATH_PRESERVE \<and> redirect_path r \<noteq> [] \<longrightarrow>
        snd (clean r) \<noteq> None)
   \<and> (\<not> (redirect_type r = REDIRECT_TYPE_FULL \<and> redirect_path r = [])
        \<and> \<not> (redirect_type r = REDIRECT_TYPE_PATH_PRESERVE \<and> redirect_path r \<noteq> [])
      \<longrightarrow> snd (clean r) \<noteq> Some FullRequiresPath \<and> snd (clean r) \<noteq> Some PathPreserveHasPath)
   \<and> (subdomain r = []
        \<or> (isalnum (lower (hd (split_char CHR ''.'' (subdomain r))))
             \<or> CHR ''-'' \<in> set (lower (hd (split_char CHR ''.'' (subdomain r)))))
           \<and> 2 \<le> length (lower (hd (split_char CHR ''.'' (subdomain r))))
      \<longrightarrow> (snd (clean r) \<noteq> None
             \<longleftrightarrow> (redirect_type r = REDIRECT_TYPE_FULL \<and> redirect_path r = []
                  \<or> redirect_type r = REDIRECT_TYPE_PATH_PRESERVE \<and> redirect_path r \<noteq> []))
           \<and> snd (clean r) =
               (if redirect_type r = REDIRECT_TYPE_FULL \<and> redirect_path r = []
                then Some FullRequiresPath
                else if redirect_type r = REDIRECT_TYPE_PATH_PRESERVE \<and> redirect_path r \<noteq> []
                then Some PathPreserveHasPath
                else None))
   \<and> (\<not> (subdomain r = []
           \<or> (isalnum (lower (hd (split_char CHR ''.'' (subdomain r))))
                \<or> CHR ''-'' \<in> set (lower (hd (split_char CHR ''.'' (subdomain r)))))
              \<and> 2 \<le> length (lower (hd (split_char CHR ''.'' (subdomain r)))))
      \<longrightarrow> snd (clean r) = Some SubdomainCharset \<or> snd (clean r) = Some SubdomainTooShort)"
proof -
  have a: "redirect_type r = REDIRECT_TYPE_FULL \<and> redirect_path r = [] \<longrightarrow> snd (clean r) \<noteq> None"
    by (simp add: clean_def Let_def)
  have b: "redirect_type r = REDIRECT_TYPE_PATH_PRESERVE \<and> redirect_path r \<noteq> [] \<longrightarrow>
        snd (clean r) \<noteq> None"
    by (simp add: clean_def Let_def)
  have c: "\<not> (redirect_type r = REDIRECT_TYPE_FULL \<and> redirect_path r = [])
        \<and> \<not> (redirect_type r = REDIRECT_TYPE_PATH_PRESERVE \<and> redirect_path r \<noteq> [])
      \<longrightarrow> snd (clean r) \<noteq> Some FullRequiresPath \<and> snd (clean r) \<noteq> Some PathPreserveHasPath"
    by (simp add: clean_def Let_def)
  have d: "subdomain r = []
        \<or> (isalnum (lower (hd (split_char CHR ''.'' (subdomain r))))
             \<or> CHR ''-'' \<in> set (lower (hd (split_char CHR ''.'' (subdomain r)))))
           \<and> 2 \<le> length (lower (hd (split_char CHR ''.'' (subdomain r))))
      \<longrightarrow> (snd (clean r) \<noteq> None
             \<longleftrightarrow> (redirect_type r = REDIRECT_TYPE_FULL \<and> redirect_path r = []
                  \<or> redirect_type r = REDIRECT_TYPE_PATH_PRESERVE \<and> redirect_path r \<noteq> []))
           \<and> snd (clean r) =
               (if redirect_type r = REDIRECT_TYPE_FULL \<and> redirect_path r = []
                then Some FullRequiresPath
                else if redirect_type r = REDIRECT_TYPE_PATH_PRESERVE \<and> redirect_path r \<noteq> []
                then Some PathPreserveHasPath
                else None)"
    using redirect_types_differ by (auto simp add: clean_def Let_def)
  have e: "\<not> (subdomain r = []
           \<or> (isalnum (lower (hd (split_char CHR ''.'' (subdomain r))))
                \<or> CHR ''-'' \<in> set (lower (hd (split_char CHR ''.'' (subdomain r)))))
              \<and> 2 \<le> length (lower (hd (split_char CHR ''.'' (subdomain r)))))
      \<longrightarrow> snd (clean r) = Some SubdomainCharset \<or> snd (clean r) = Some SubdomainTooShort"
    by (auto simp add: clean_def Let_def)
  from a b c d e show ?thesis by blast
qed

theorem clean_redirect_configuration_witness:
  "isalnum (lower (hd (split_char CHR ''.'' (subdomain shop_rule))))
   \<and> 2 \<le> length (lower (hd (split_char CHR ''.'' (subdomain shop_rule))))
   \<and> snd (clean shop_rule) = None
   \<and> snd (clean full_without_path) = Some FullRequiresPath
   \<and> snd (clean (shop_rule\<lparr>redirect_type := REDIRECT_TYPE_PATH_PRESERVE\<rparr>)) = Some PathPreserveHasPath"
proof -
  have n: "lower (hd (split_char CHR ''.'' ''shop'')) = ''shop''"
    by code_simp
  have al: "isalnum ''shop''"
    by code_simp
  have ok: "isalnum (lower (hd (split_char CHR ''.'' (subdomain shop_rule))))
     \<and> 2 \<le> length (lower (hd (split_char CHR ''.'' (subdomain shop_rule))))"
    using n al by simp
  note d = clean_redirect_configuration [THEN conjunct2, THEN conjunct2, THEN conjunct2,
      THEN conjunct1]
  from d [of shop_rule] ok have one: "snd (clean shop_rule) = None"
    by (simp add: REDIRECT_TYPE_FULL_def REDIRECT_TYPE_PATH_PRESERVE_def)
  from d [of full_without_path] ok have two: "snd (clean full_without_path) = Some FullRequiresPath"
    by (simp add: REDIRECT_TYPE_FULL_def REDIRECT_TYPE_PATH_PRESERVE_def)
  from d [of "shop_rule\<lparr>redirect_type := REDIRECT_TYPE_PATH_PRESERVE\<rparr>"] ok
  have three: "snd (clean (shop_rule\<lparr>redirect_type := REDIRECT_TYPE_PATH_PRESERVE\<rparr>))
      = Some PathPreserveHasPath"
    using redirect_types_differ by simp
  from ok one two three show ?thesis by blast
qed

text \<open>
  The rule for \<open>a\<close>: FULL with the path \<open>/x/\<close>, a consistent combination, and \<open>clean\<close> raises
  the too-short error.
\<close>

theorem clean_consistent_rule_raises_counterexample:
  "redirect_type a_rule = REDIRECT_TYPE_FULL \<and> redirect_path a_rule = ''/x/''
   \<and> redirect_type a_rule \<noteq> REDIRECT_TYPE_PATH_PRESERVE
   \<and> snd (clean a_rule) = Some SubdomainTooShort"
  by code_simp


section \<open>Validation of the subdomain\<close>

text \<open>
  C7, at an input the check lets through. The subdomain \<open>my_shop-1\<close> has an underscore, so it
  is not made of letters, digits and hyphens only; \<open>clean\<close> raises nothing for it, because a
  subdomain that contains a hyphen is never tested for its other characters.
\<close>

theorem clean_accepts_underscore_with_hyphen:
  "\<not> list_all (\<lambda>c. is_alnum_char c \<or> c = CHR ''-'') (subdomain underscore_rule)
   \<and> clean underscore_rule = (underscore_rule, None)"
  by code_simp

text \<open>
  C10. For a rule whose subdomain is the empty string \<open>clean\<close> leaves the rule as it is and
  raises neither subdomain error; its outcome is that of the two redirect-configuration
  checks alone.
\<close>

theorem clean_empty_subdomain:
  "subdomain r = [] \<Longrightarrow>
     fst (clean r) = r
     \<and> snd (clean r) \<noteq> Some SubdomainCharset \<and> snd (clean r) \<noteq> Some SubdomainTooShort
     \<and> snd (clean r) =
         (if redirect_type r = REDIRECT_TYPE_FULL \<and> redirect_path r = []
          then Some FullRequiresPath
          else if redirect_type r = REDIRECT_TYPE_PATH_PRESERVE \<and> redirect_path r \<noteq> []
          then Some PathPreserveHasPath
          else None)"
  by (simp add: clean_def Let_def)

theorem clean_empty_subdomain_witness:
  "subdomain no_subdomain_rule = [] \<and> clean no_subdomain_rule = (no_subdomain_rule, None)"
proof -
  have e: "subdomain no_subdomain_rule = []"
    by simp
  from clean_empty_subdomain [OF e] show ?thesis
    by (simp add: REDIRECT_TYPE_FULL_def REDIRECT_TYPE_PATH_PRESERVE_def prod_eq_iff)
qed

end
